theory Spec2Isabelle
  imports Main "HOL-Library.AList"
begin

section \<open>Python values, errors and dictionaries\<close>

text \<open>
  The binding generator of \<^verbatim>\<open>dm_control/autowrap/binding_generator.py\<close> works on
  dynamically typed values. The values that reach its tables and its shape tuples are
  \<^verbatim>\<open>None\<close>, booleans, integers (unbounded), strings and tuples. Floating-point
  constants are outside of this development.
\<close>

datatype pyval = NoneV | BoolV bool | IntV int | StrV string | TupleV "pyval list"

text \<open>The exceptions that the modelled code can raise.\<close>

datatype error = DuplicateKeyError string | ValueError | NameError string

text \<open>Truthiness as \<^verbatim>\<open>if x:\<close> and \<^verbatim>\<open>x or y\<close> test it.\<close>

fun truthy :: "pyval \<Rightarrow> bool" where
  "truthy NoneV = False"
| "truthy (BoolV b) = b"
| "truthy (IntV n) = (n \<noteq> 0)"
| "truthy (StrV s) = (s \<noteq> [])"
| "truthy (TupleV vs) = (vs \<noteq> [])"

definition py_or :: "pyval \<Rightarrow> pyval \<Rightarrow> pyval" where
  "py_or a b = (if truthy a then a else b)"

text \<open>\<^verbatim>\<open>isinstance(v, int)\<close>: a Python \<^verbatim>\<open>bool\<close> is an \<^verbatim>\<open>int\<close>.\<close>

fun isinstance_int :: "pyval \<Rightarrow> bool" where
  "isinstance_int (IntV n) = True"
| "isinstance_int (BoolV b) = True"
| "isinstance_int v = False"

fun isinstance_str :: "pyval \<Rightarrow> bool" where
  "isinstance_str (StrV s) = True"
| "isinstance_str v = False"

text \<open>\<^verbatim>\<open>v == i\<close> for an integer literal \<^verbatim>\<open>i\<close>: \<^verbatim>\<open>True == 1\<close> holds in Python.\<close>

fun py_eq_int :: "pyval \<Rightarrow> int \<Rightarrow> bool" where
  "py_eq_int (IntV n) i = (n = i)"
| "py_eq_int (BoolV b) i = ((if b then 1 else 0) = i)"
| "py_eq_int v i = False"

subsection \<open>The built-in \<^verbatim>\<open>int(s)\<close> on strings\<close>

text \<open>
  Base ten: surrounding whitespace is stripped, one sign is allowed, and the digits
  may be grouped by single underscores. Anything else raises \<^verbatim>\<open>ValueError\<close>,
  which is \<open>None\<close> here.
\<close>

definition digit_of :: "char \<Rightarrow> nat option" where
  "digit_of c = map_of
     [(CHR ''0'', 0), (CHR ''1'', 1), (CHR ''2'', 2), (CHR ''3'', 3), (CHR ''4'', 4),
      (CHR ''5'', 5), (CHR ''6'', 6), (CHR ''7'', 7), (CHR ''8'', 8), (CHR ''9'', 9)] c"

definition is_space :: "char \<Rightarrow> bool" where
  "is_space c = (c \<in> set [CHR '' '', CHR 0x09, CHR 0x0A, CHR 0x0B, CHR 0x0C, CHR 0x0D])"

definition strip :: "string \<Rightarrow> string" where
  "strip s = rev (dropWhile is_space (rev (dropWhile is_space s)))"

text \<open>
  \<open>digits acc after_digit s\<close> reads the rest of a digit string; \<open>after_digit\<close> says
  that the previous character was a digit, so that an underscore may follow.
\<close>

fun digits :: "nat \<Rightarrow> bool \<Rightarrow> string \<Rightarrow> nat option" where
  "digits acc after_digit [] = (if after_digit then Some acc else None)"
| "digits acc after_digit (c # cs) =
     (case digit_of c of
        Some d \<Rightarrow> digits (10 * acc + d) True cs
      | None \<Rightarrow> if c = CHR ''_'' \<and> after_digit then digits acc False cs else None)"

definition int_of_string :: "string \<Rightarrow> int option" where
  "int_of_string s =
     (case strip s of
        [] \<Rightarrow> None
      | c # cs \<Rightarrow>
          if c = CHR ''-'' then map_option (\<lambda>n. - int n) (digits 0 False cs)
          else if c = CHR ''+'' then map_option int (digits 0 False cs)
          else map_option int (digits 0 False (c # cs)))"

subsection \<open>Dictionaries\<close>

text \<open>
  A dictionary with string keys is an association list in insertion order. A plain
  \<^verbatim>\<open>d[k] = v\<close> is \<^const>\<open>AList.update\<close>: it replaces the value of a present key in
  place and appends an absent one. \<^verbatim>\<open>d.get(k)\<close> and \<^verbatim>\<open>d[k]\<close> are \<^const>\<open>map_of\<close>.
\<close>

type_synonym 'v dict = "(string \<times> 'v) list"

definition has_key :: "'v dict \<Rightarrow> string \<Rightarrow> bool" where
  "has_key d k = (k \<in> set (map fst d))"

text \<open>
  Modelled from the spec: \<^verbatim>\<open>codegen_util.UniqueOrderedDict\<close> is not among the sources.
  The spec describes it as an ordered mapping that preserves insertion order and fails
  with a duplicate-key error if a key already present is reinserted. The failed
  insertion raises before anything is stored, so the table is returned as it was.
\<close>

definition uod_setitem :: "'v dict \<Rightarrow> string \<Rightarrow> 'v \<Rightarrow> 'v dict \<times> error option" where
  "uod_setitem d k v =
     (if has_key d k then (d, Some (DuplicateKeyError k)) else (d @ [(k, v)], None))"

text \<open>
  Modelled from the spec: \<^verbatim>\<open>copy\<close> and \<^verbatim>\<open>update\<close> of the same missing class. The spec
  says that the combined view overlays enum members onto a copy of the constants table
  and that a colliding enum member silently wins, so \<^verbatim>\<open>update\<close> stores every pair of
  its argument in order, replacing the value of a key that is present.
\<close>

definition dict_update :: "'v dict \<Rightarrow> 'v dict \<Rightarrow> 'v dict" where
  "dict_update d other = fold (\<lambda>(k, v) acc. AList.update k v acc) other d"

text \<open>\<^verbatim>\<open>d.get(key)\<close> for an arbitrary value as key: only a string can be a key here.\<close>

fun dict_get :: "pyval dict \<Rightarrow> pyval \<Rightarrow> pyval option" where
  "dict_get d (StrV s) = map_of d s"
| "dict_get d v = None"

section \<open>The generator session\<close>

text \<open>
  The five tables of \<^verbatim>\<open>BindingGenerator\<close>. Enum members hold integers; constants hold
  integers or the sentinel \<^verbatim>\<open>True\<close>; typedefs hold type names; hints hold shape tuples;
  the index holds, per struct, an ordinary dictionary from field name to shape tuple.
\<close>

record binding_generator =
  enums_dict :: "(int dict) dict"
  consts_dict :: "pyval dict"
  typedefs_dict :: "pyval dict"
  hints_dict :: "pyval dict"
  index_dict :: "(pyval dict) dict"

text \<open>\<^verbatim>\<open>__init__\<close>: \<^verbatim>\<open>arg or UniqueOrderedDict()\<close>; an empty dictionary is falsy.\<close>

definition init_table :: "'v dict option \<Rightarrow> 'v dict" where
  "init_table arg = (case arg of None \<Rightarrow> [] | Some d \<Rightarrow> if d = [] then [] else d)"

definition init :: "(int dict) dict option \<Rightarrow> pyval dict option \<Rightarrow> pyval dict option \<Rightarrow>
    pyval dict option \<Rightarrow> (pyval dict) dict option \<Rightarrow> binding_generator" where
  "init e c t h i =
     \<lparr>enums_dict = init_table e, consts_dict = init_table c, typedefs_dict = init_table t,
      hints_dict = init_table h, index_dict = init_table i\<rparr>"

subsection \<open>\<^verbatim>\<open>get_consts_and_enums\<close>\<close>

definition get_consts_and_enums :: "binding_generator \<Rightarrow> pyval dict" where
  "get_consts_and_enums g =
     fold (\<lambda>enum consts_and_enums. dict_update consts_and_enums (map (\<lambda>(k, n). (k, IntV n)) enum))
       (map snd (enums_dict g)) (consts_dict g)"

subsection \<open>\<^verbatim>\<open>parse_enums\<close>\<close>

text \<open>
  The grammar \<^verbatim>\<open>header_parsing.ENUM_DECL\<close> is not among the sources; the functions
  below take the token trees that a scan yields. A named field that did not match
  reads as the empty string, which is what the truth tests of the source rely on.
\<close>

record enum_member =
  member_name :: string
  bit_lshift_a :: string
  bit_lshift_b :: string
  member_value :: string

record enum_decl =
  enum_name :: string
  enum_members :: "enum_member list"

text \<open>\<^verbatim>\<open>a << b\<close> on Python integers: a negative shift count raises \<^verbatim>\<open>ValueError\<close>.\<close>

definition py_lshift :: "int \<Rightarrow> int \<Rightarrow> error + int" where
  "py_lshift a b = (if b < 0 then Inl ValueError else Inr (a * 2 ^ nat b))"

definition py_int :: "string \<Rightarrow> error + int" where
  "py_int s = (case int_of_string s of None \<Rightarrow> Inl ValueError | Some n \<Rightarrow> Inr n)"

text \<open>The value that the body of the member loop computes from the running \<^verbatim>\<open>value\<close>.\<close>

definition member_value_of :: "int \<Rightarrow> enum_member \<Rightarrow> error + int" where
  "member_value_of value m =
     (if bit_lshift_a m \<noteq> [] then
        (case py_int (bit_lshift_a m) of
           Inl e \<Rightarrow> Inl e
         | Inr a \<Rightarrow> (case py_int (bit_lshift_b m) of Inl e \<Rightarrow> Inl e | Inr b \<Rightarrow> py_lshift a b))
      else if member_value m \<noteq> [] then py_int (member_value m)
      else Inr (value + 1))"

text \<open>The member loop: \<open>members\<close> is the dictionary built so far.\<close>

fun enum_loop :: "int dict \<Rightarrow> int \<Rightarrow> enum_member list \<Rightarrow> error + int dict" where
  "enum_loop members value [] = Inr members"
| "enum_loop members value (m # ms) =
     (case member_value_of value m of
        Inl e \<Rightarrow> Inl e
      | Inr value' \<Rightarrow>
          (case uod_setitem members (member_name m) value' of
             (members', Some e) \<Rightarrow> Inl e
           | (members', None) \<Rightarrow> enum_loop members' value' ms))"

text \<open>
  One enum block, then all of them. An exception leaves the session as the
  assignments before it made it, so the session is returned with the error.
\<close>

definition parse_enum :: "binding_generator \<Rightarrow> enum_decl \<Rightarrow> binding_generator \<times> error option" where
  "parse_enum g enum =
     (case enum_loop [] 0 (enum_members enum) of
        Inl e \<Rightarrow> (g, Some e)
      | Inr members \<Rightarrow>
          (case uod_setitem (enums_dict g) (enum_name enum) members of
             (d, err) \<Rightarrow> (g\<lparr>enums_dict := d\<rparr>, err)))"

fun parse_enum_list :: "binding_generator \<Rightarrow> enum_decl list \<Rightarrow> binding_generator \<times> error option" where
  "parse_enum_list g [] = (g, None)"
| "parse_enum_list g (enum # enums) =
     (case parse_enum g enum of
        (g', Some e) \<Rightarrow> (g', Some e)
      | (g', None) \<Rightarrow> parse_enum_list g' enums)"

text \<open>\<open>scanned\<close> is what \<^verbatim>\<open>parser.scanString(src)\<close> yields: one token list per match.\<close>

definition parse_enums :: "binding_generator \<Rightarrow> enum_decl list list \<Rightarrow> binding_generator \<times> error option" where
  "parse_enums g scanned = parse_enum_list g (concat scanned)"


section \<open>The resolver\<close>

subsection \<open>Helpers of \<^verbatim>\<open>codegen_util\<close>\<close>

text \<open>
  Modelled from the spec: \<^verbatim>\<open>codegen_util.recursive_dict_lookup\<close> is not among the
  sources. The spec has it look a name up in a table, chasing through to a terminal
  value: a value that is itself a key is looked up again. The spec gives no bound, so
  a cyclic table makes the function never return, which is \<open>None\<close> here.
\<close>

partial_function (option) recursive_dict_lookup :: "pyval \<Rightarrow> pyval dict \<Rightarrow> pyval option" where
  "recursive_dict_lookup key try_dict =
     (case dict_get try_dict key of
        None \<Rightarrow> Some key
      | Some v \<Rightarrow> recursive_dict_lookup v try_dict)"

text \<open>
  Modelled from the spec: \<^verbatim>\<open>codegen_util.try_coerce_to_num\<close> is not among the sources.
  By the spec, a value that can be coerced to an integer yields that integer, and any
  other value is returned as it is (a non-numeric string stays a string). The integer
  of a value is the one of Python's \<^verbatim>\<open>int\<close>.
\<close>

fun coerce_int :: "pyval \<Rightarrow> int option" where
  "coerce_int (IntV n) = Some n"
| "coerce_int (BoolV b) = Some (if b then 1 else 0)"
| "coerce_int (StrV s) = int_of_string s"
| "coerce_int v = None"

definition try_coerce_to_num :: "pyval \<Rightarrow> pyval" where
  "try_coerce_to_num s = (case coerce_int s of Some n \<Rightarrow> IntV n | None \<Rightarrow> s)"

subsection \<open>\<^verbatim>\<open>resolve_size\<close>\<close>

text \<open>\<^verbatim>\<open>s.split(c)\<close> for a one-character separator: never an empty list.\<close>

fun str_split :: "char \<Rightarrow> string \<Rightarrow> string list" where
  "str_split c [] = [[]]"
| "str_split c (x # xs) =
     (if x = c then [] # str_split c xs
      else (case str_split c xs of [] \<Rightarrow> [[x]] | p # ps \<Rightarrow> (x # p) # ps))"

text \<open>
  A size is an integer or a string. A call returns a value, raises, or (through the
  lookup) does not return: \<open>Some (Inr v)\<close>, \<open>Some (Inl e)\<close>, \<open>None\<close>.
\<close>

datatype size_tok = TokInt int | TokStr string

text \<open>
  The results of a comprehension, left to right: the first call that raises or does
  not return ends it.
\<close>

fun collect :: "(error + 'a) option list \<Rightarrow> (error + 'a list) option" where
  "collect [] = Some (Inr [])"
| "collect (None # rs) = None"
| "collect (Some (Inl e) # rs) = Some (Inl e)"
| "collect (Some (Inr v) # rs) =
     (case collect rs of
        None \<Rightarrow> None
      | Some (Inl e) \<Rightarrow> Some (Inl e)
      | Some (Inr vs) \<Rightarrow> Some (Inr (v # vs)))"

lemma str_split_not_Nil: "str_split c s \<noteq> []"
  by (induction s) (auto split: list.splits)

lemma str_split_le: "part \<in> set (str_split c s) \<Longrightarrow> length part \<le> length s"
proof (induction s arbitrary: part)
  case Nil
  then show ?case by simp
next
  case (Cons x xs)
  show ?case
  proof (cases "str_split c xs")
    case Nil
    then show ?thesis using str_split_not_Nil [of c xs] by simp
  next
    case (Cons p ps)
    have "length p \<le> length xs" and "\<forall>q\<in>set ps. length q \<le> length xs"
      using Cons.IH Cons by auto
    with Cons Cons.prems show ?thesis by (auto split: if_splits intro: le_SucI)
  qed
qed

lemma str_split_shorter:
  "c \<in> set s \<Longrightarrow> part \<in> set (str_split c s) \<Longrightarrow> length part < length s"
proof (induction s arbitrary: part)
  case Nil
  then show ?case by simp
next
  case (Cons x xs)
  show ?case
  proof (cases "x = c")
    case True
    with Cons.prems str_split_le [of part c xs] show ?thesis by (auto simp: less_Suc_eq_le)
  next
    case False
    with Cons.prems have cin: "c \<in> set xs" by simp
    show ?thesis
    proof (cases "str_split c xs")
      case Nil
      then show ?thesis using str_split_not_Nil [of c xs] by simp
    next
      case (Cons p ps)
      have "length p < length xs" and "\<forall>q\<in>set ps. length q < length xs"
        using Cons.IH [OF cin] Cons by auto
      with Cons False Cons.prems show ?thesis by (auto intro: less_SucI)
    qed
  qed
qed

text \<open>
  The name \<^verbatim>\<open>np\<close> is bound nowhere in the module (it imports \<^verbatim>\<open>os\<close>, \<^verbatim>\<open>pprint\<close>,
  \<^verbatim>\<open>textwrap\<close>, \<^verbatim>\<open>logging\<close>, \<^verbatim>\<open>codegen_util\<close>, \<^verbatim>\<open>header_parsing\<close> and
  \<^verbatim>\<open>pyparsing\<close>), so evaluating \<^verbatim>\<open>np.prod(sizes)\<close> raises \<^verbatim>\<open>NameError\<close>.
\<close>

function resolve_size :: "binding_generator \<Rightarrow> size_tok \<Rightarrow> (error + pyval) option" where
  "resolve_size g (TokInt n) = Some (Inr (IntV n))"
| "resolve_size g (TokStr old_size) =
     (if CHR ''*'' \<in> set old_size then
        (case collect (map (\<lambda>part. resolve_size g (TokStr part)) (str_split CHR ''*'' old_size)) of
           None \<Rightarrow> None
         | Some (Inl e) \<Rightarrow> Some (Inl e)
         | Some (Inr sizes) \<Rightarrow>
             if list_all isinstance_int sizes then Some (Inl (NameError ''np''))
             else Some (Inr (TupleV sizes)))
      else
        (case recursive_dict_lookup (StrV old_size) (get_consts_and_enums g) of
           None \<Rightarrow> None
         | Some size' \<Rightarrow> Some (Inr (py_or (try_coerce_to_num size') (StrV old_size)))))"
  by pat_completeness auto
termination
  by (relation "measure (\<lambda>(g, t). case t of TokInt n \<Rightarrow> 0 | TokStr s \<Rightarrow> length s)")
     (auto simp: str_split_shorter)

subsection \<open>\<^verbatim>\<open>get_shape_tuple\<close>\<close>

text \<open>
  The dimension specifier of a member is a structured parse result (a sequence of
  dimensions) or a single size.
\<close>

datatype dims = ParseResults "size_tok list" | Single size_tok

definition get_shape_tuple :: "binding_generator \<Rightarrow> dims \<Rightarrow> bool \<Rightarrow> (error + pyval list) option" where
  "get_shape_tuple g old_size squeeze =
     (case (case old_size of
              ParseResults ds \<Rightarrow> collect (map (resolve_size g) ds)
            | Single d \<Rightarrow> collect [resolve_size g d]) of
        None \<Rightarrow> None
      | Some (Inl e) \<Rightarrow> Some (Inl e)
      | Some (Inr shape) \<Rightarrow> Some (Inr (filter (\<lambda>d. \<not> squeeze \<or> \<not> py_eq_int d 1) shape)))"

subsection \<open>\<^verbatim>\<open>resolve_typename\<close>\<close>

text \<open>
  The table \<^verbatim>\<open>header_parsing.C_TO_CTYPES\<close> is not among the sources and is a parameter.
  The result comes with the flag that says whether the warning was logged.
\<close>

definition resolve_typename ::
    "pyval dict \<Rightarrow> binding_generator \<Rightarrow> string \<Rightarrow> (pyval \<times> bool) option" where
  "resolve_typename C_TO_CTYPES g old_ctypes_typename =
     (case recursive_dict_lookup (StrV old_ctypes_typename) (typedefs_dict g) of
        None \<Rightarrow> None
      | Some new_ctypes_typename \<Rightarrow>
          (let new_ctypes_typename =
                 (case dict_get C_TO_CTYPES new_ctypes_typename of
                    None \<Rightarrow> new_ctypes_typename
                  | Some v \<Rightarrow> v)
           in Some (new_ctypes_typename, new_ctypes_typename = StrV old_ctypes_typename)))"


section \<open>Array-shape hints: \<^verbatim>\<open>parse_hints\<close>\<close>

text \<open>
  The grammar \<^verbatim>\<open>header_parsing.XMACRO\<close> is not among the sources; the functions take
  its token trees. \<^verbatim>\<open>codegen_util.is_macro_pointer\<close> and
  \<^verbatim>\<open>codegen_util.macro_struct_name\<close> are not among the sources either and are
  parameters.
\<close>

record xmacro_member =
  field_name :: string
  field_dims :: dims


text \<open>
  Modelled from the spec: \<^verbatim>\<open>setdefault\<close> of the missing class
  \<^verbatim>\<open>codegen_util.UniqueOrderedDict\<close>. The spec gives the class the rejecting insertion as
  its only operation of its own, so this is the method of Python's ordered dictionary:
  it returns the value of a key that is present, and stores and returns the default
  for a key that is absent. No key is reinserted, so it does not raise.
\<close>

definition setdefault :: "'v dict \<Rightarrow> string \<Rightarrow> 'v \<Rightarrow> 'v dict \<times> 'v" where
  "setdefault d k dflt =
     (case map_of d k of Some v \<Rightarrow> (d, v) | None \<Rightarrow> (d @ [(k, dflt)], dflt))"

text \<open>
  \<^verbatim>\<open>self.index_dict.setdefault(struct_name, {})[member.name] = shape\<close>: the inner
  dictionary is the object that the table holds, so the assignment to it shows in the
  table. The inner dictionary is a plain one: its assignment is \<^const>\<open>AList.update\<close>.
\<close>

definition index_assign :: "(pyval dict) dict \<Rightarrow> string \<Rightarrow> string \<Rightarrow> pyval \<Rightarrow> (pyval dict) dict" where
  "index_assign idx struct_name k shape =
     (case setdefault idx struct_name [] of
        (idx', inner) \<Rightarrow> AList.update struct_name (AList.update k shape inner) idx')"

text \<open>The body of the member loop, for one member of the x-macro called \<open>xname\<close>.\<close>

definition parse_hint_member ::
    "(string \<Rightarrow> bool) \<Rightarrow> (string \<Rightarrow> string) \<Rightarrow> string \<Rightarrow> binding_generator \<Rightarrow> xmacro_member \<Rightarrow>
     (binding_generator \<times> error option) option" where
  "parse_hint_member is_macro_pointer macro_struct_name xname g m =
     (case get_shape_tuple g (field_dims m) True of
        None \<Rightarrow> None
      | Some (Inl e) \<Rightarrow> Some (g, Some e)
      | Some (Inr shape) \<Rightarrow>
          (case uod_setitem (hints_dict g) (field_name m) (TupleV shape) of
             (h, Some e) \<Rightarrow> Some (g, Some e)
           | (h, None) \<Rightarrow>
               (let g1 = g\<lparr>hints_dict := h\<rparr> in
                if is_macro_pointer xname then
                  Some (g1\<lparr>index_dict :=
                          index_assign (index_dict g1) (macro_struct_name xname) (field_name m)
                            (TupleV shape)\<rparr>, None)
                else Some (g1, None))))"




section \<open>Constants, typedefs and conditional blocks\<close>

text \<open>
  A token of \<^verbatim>\<open>COND_DECL | UNCOND_DECL\<close> (grammars that are not among the sources)
  is read by attribute: the source tests \<^verbatim>\<open>token.predicate\<close>, \<^verbatim>\<open>token.typename\<close> and
  \<^verbatim>\<open>token.value\<close> in this order, and a field that did not match is empty.
\<close>

datatype token =
  Token (predicate: string) (if_true: "token list") (if_false: "token list")
    (tok_name: string) (typename: string) (tok_value: string)

text \<open>\<^verbatim>\<open>condition = self.get_consts_and_enums().get(token.predicate)\<close>, tested by \<^verbatim>\<open>if\<close>.\<close>

definition condition :: "binding_generator \<Rightarrow> string \<Rightarrow> bool" where
  "condition g p = (case map_of (get_consts_and_enums g) p of None \<Rightarrow> False | Some v \<Rightarrow> truthy v)"

fun recurse_into_conditionals :: "binding_generator \<Rightarrow> token list \<Rightarrow> binding_generator \<times> error option"
  and recurse_token :: "binding_generator \<Rightarrow> token \<Rightarrow> binding_generator \<times> error option" where
  "recurse_into_conditionals g [] = (g, None)"
| "recurse_into_conditionals g (t # ts) =
     (case recurse_token g t of
        (g', Some e) \<Rightarrow> (g', Some e)
      | (g', None) \<Rightarrow> recurse_into_conditionals g' ts)"
| "recurse_token g (Token p tt ff n ty v) =
     (if p \<noteq> [] then
        (if condition g p then recurse_into_conditionals g tt
         else recurse_into_conditionals g ff)
      else if ty \<noteq> [] then
        (case uod_setitem (typedefs_dict g) n (StrV ty) of
           (d, err) \<Rightarrow> (g\<lparr>typedefs_dict := d\<rparr>, err))
      else if v \<noteq> [] then
        (let value = try_coerce_to_num (StrV v) in
         if \<not> isinstance_str value then
           (case uod_setitem (consts_dict g) n value of
              (d, err) \<Rightarrow> (g\<lparr>consts_dict := d\<rparr>, err))
         else (g, None))
      else
        (case uod_setitem (consts_dict g) n (BoolV True) of
           (d, err) \<Rightarrow> (g\<lparr>consts_dict := d\<rparr>, err)))"

fun parse_consts_typedefs :: "binding_generator \<Rightarrow> token list list \<Rightarrow> binding_generator \<times> error option" where
  "parse_consts_typedefs g [] = (g, None)"
| "parse_consts_typedefs g (tokens # scanned) =
     (case recurse_into_conditionals g tokens of
        (g', Some e) \<Rightarrow> (g', Some e)
      | (g', None) \<Rightarrow> parse_consts_typedefs g' scanned)"


section \<open>Example sessions and token trees\<close>

text \<open>The dimensions of a specifier, as the two branches of \<^verbatim>\<open>get_shape_tuple\<close> read them.\<close>

fun dims_list :: "dims \<Rightarrow> size_tok list" where
  "dims_list (ParseResults ds) = ds"
| "dims_list (Single d) = [d]"


text \<open>A member of an enum block: name, shift operands, explicit value.\<close>

definition mk_member :: "string \<Rightarrow> string \<Rightarrow> string \<Rightarrow> string \<Rightarrow> enum_member" where
  "mk_member n a b v = \<lparr>member_name = n, bit_lshift_a = a, bit_lshift_b = b, member_value = v\<rparr>"

text \<open>The token tree of \<^verbatim>\<open>enum E { X, Y=10, Z };\<close>.\<close>

definition enum_E :: enum_decl where
  "enum_E = \<lparr>enum_name = ''E'', enum_members =
     [mk_member ''X'' [] [] [], mk_member ''Y'' [] [] ''10'', mk_member ''Z'' [] [] []]\<rparr>"

definition session_empty :: binding_generator where
  "session_empty = init None None None None None"

text \<open>Sessions whose constants are \<^verbatim>\<open>A = 2, B = 3\<close>, \<^verbatim>\<open>A = 2\<close> and \<^verbatim>\<open>Z = 0\<close>.\<close>

definition session_AB :: binding_generator where
  "session_AB = init None (Some [(''A'', IntV 2), (''B'', IntV 3)]) None None None"

definition session_A :: binding_generator where
  "session_A = init None (Some [(''A'', IntV 2)]) None None None"

definition session_Z :: binding_generator where
  "session_Z = init None (Some [(''Z'', IntV 0)]) None None None"



text \<open>Typedefs \<^verbatim>\<open>A -> B\<close> and \<^verbatim>\<open>B -> int\<close>, and a native-type table with \<^verbatim>\<open>int -> i32\<close>.\<close>

definition session_typedefs :: binding_generator where
  "session_typedefs = init None None (Some [(''A'', StrV ''B''), (''B'', StrV ''int'')]) None None"

definition ctypes_example :: "pyval dict" where
  "ctypes_example = [(''int'', StrV ''i32'')]"

text \<open>A session with an entry in each of its five tables.\<close>

definition session_full :: binding_generator where
  "session_full = init (Some [(''E'', [(''X'', 1)])]) (Some [(''A'', IntV 2)])
     (Some [(''T'', StrV ''int'')]) (Some [(''qpos'', TupleV [IntV 7])])
     (Some [(''mjdata'', [(''qpos'', TupleV [IntV 7])])])"

text \<open>A session in which \<^verbatim>\<open>N\<close> is the constant 5 and a member of the enum \<^verbatim>\<open>E\<close> with value 7.\<close>

definition session_N :: binding_generator where
  "session_N = init (Some [(''E'', [(''N'', 7)])]) (Some [(''N'', IntV 5)]) None None None"







section \<open>Properties\<close>

subsection \<open>Evaluation helpers\<close>

lemma rdl_absent: "dict_get d key = None \<Longrightarrow> recursive_dict_lookup key d = Some key"
  by (subst recursive_dict_lookup.simps) simp

lemma rdl_step:
  "dict_get d key = Some v \<Longrightarrow> recursive_dict_lookup key d = recursive_dict_lookup v d"
  by (subst recursive_dict_lookup.simps) simp

lemma view_AB: "get_consts_and_enums session_AB = [(''A'', IntV 2), (''B'', IntV 3)]"
  by (simp add: session_AB_def get_consts_and_enums_def init_def init_table_def)

lemma view_A: "get_consts_and_enums session_A = [(''A'', IntV 2)]"
  by (simp add: session_A_def get_consts_and_enums_def init_def init_table_def)

lemma view_Z: "get_consts_and_enums session_Z = [(''Z'', IntV 0)]"
  by (simp add: session_Z_def get_consts_and_enums_def init_def init_table_def)

lemmas int_of_string_eval = int_of_string_def strip_def is_space_def digit_of_def

subsection \<open>Enum values\<close>

text \<open>
  The three cases of the member loop: a member with shift operands gets \<open>a << b\<close>, a
  member with an explicit value gets that value, and any other member gets the running
  value plus one.
\<close>

lemma member_value_of_shift:
  "bit_lshift_a m \<noteq> [] \<Longrightarrow> py_int (bit_lshift_a m) = Inr a \<Longrightarrow> py_int (bit_lshift_b m) = Inr b \<Longrightarrow>
   0 \<le> b \<Longrightarrow> member_value_of value m = Inr (a * 2 ^ nat b)"
  by (simp add: member_value_of_def py_lshift_def)

lemma member_value_of_explicit:
  "bit_lshift_a m = [] \<Longrightarrow> member_value m \<noteq> [] \<Longrightarrow> py_int (member_value m) = Inr n \<Longrightarrow>
   member_value_of value m = Inr n"
  by (simp add: member_value_of_def)

lemma member_value_of_implicit:
  "bit_lshift_a m = [] \<Longrightarrow> member_value m = [] \<Longrightarrow> member_value_of value m = Inr (value + 1)"
  by (simp add: member_value_of_def)

text \<open>
  Claim C1. The claim has the first member of a block that lacks a value start at 0, so
  that \<^verbatim>\<open>enum E { X, Y=10, Z };\<close> yields \<^verbatim>\<open>{"E": {"X":0, "Y":10, "Z":11}}\<close>. The loop
  starts its running value at 0 and adds one before it stores: on this block the code
  records \<^verbatim>\<open>X\<close> as 1.
\<close>

theorem parse_enums_first_member_is_one:
  "parse_enums session_empty [[enum_E]] =
     (\<lparr>enums_dict = [(''E'', [(''X'', 1), (''Y'', 10), (''Z'', 11)])], consts_dict = [],
       typedefs_dict = [], hints_dict = [], index_dict = []\<rparr>, None)"
  by (simp add: parse_enums_def parse_enum_def session_empty_def init_def init_table_def
      enum_E_def mk_member_def member_value_of_def py_int_def int_of_string_eval
      uod_setitem_def has_key_def)

subsection \<open>Sizes\<close>

text \<open>
  Claim C2. The claim has \<^verbatim>\<open>resolve_size("A*B")\<close> return the integer 6 when \<^verbatim>\<open>A = 2\<close> and
  \<^verbatim>\<open>B = 3\<close> are known constants. In the code the product of integer factors is
  \<^verbatim>\<open>int(np.prod(sizes))\<close> and the module binds no name \<^verbatim>\<open>np\<close>: the call raises
  \<^verbatim>\<open>NameError\<close>.
\<close>

theorem resolve_size_product_raises:
  "resolve_size session_AB (TokStr ''A*B'') = Some (Inl (NameError ''np''))"
  by (simp add: view_AB rdl_absent rdl_step try_coerce_to_num_def py_or_def)

text \<open>
  Claim C9. A size token that is not a product and whose lookup in the combined view
  ends in a value that coerces to the integer 0 resolves to the token itself: the zero
  is falsy, so \<^verbatim>\<open>or old_size\<close> replaces it.
\<close>

theorem resolve_size_zero_is_discarded:
  assumes "CHR ''*'' \<notin> set s"
    and "recursive_dict_lookup (StrV s) (get_consts_and_enums g) = Some v"
    and "coerce_int v = Some 0"
  shows "resolve_size g (TokStr s) = Some (Inr (StrV s))"
  using assms by (simp add: try_coerce_to_num_def py_or_def)

theorem resolve_size_zero_is_discarded_witness:
  "CHR ''*'' \<notin> set ''Z'' \<and>
   recursive_dict_lookup (StrV ''Z'') (get_consts_and_enums session_Z) = Some (IntV 0) \<and>
   coerce_int (IntV 0) = Some 0 \<and>
   resolve_size session_Z (TokStr ''Z'') = Some (Inr (StrV ''Z''))"
proof -
  have l: "recursive_dict_lookup (StrV ''Z'') (get_consts_and_enums session_Z) = Some (IntV 0)"
    by (simp add: view_Z rdl_step rdl_absent)
  have s: "CHR ''*'' \<notin> set ''Z''" by simp
  have c: "coerce_int (IntV 0) = Some 0" by simp
  from resolve_size_zero_is_discarded [OF s l c] l s c show ?thesis by blast
qed

subsection \<open>Products with a symbolic factor\<close>

lemma str_split_no_sep: "part \<in> set (str_split c s) \<Longrightarrow> c \<notin> set part"
proof (induction s arbitrary: part)
  case Nil
  then show ?case by simp
next
  case (Cons x xs)
  show ?case
  proof (cases "str_split c xs")
    case Nil
    then show ?thesis using str_split_not_Nil [of c xs] by simp
  next
    case (Cons p ps)
    have "c \<notin> set p" and "\<forall>q\<in>set ps. c \<notin> set q"
      using Cons.IH Cons by auto
    with Cons Cons.prems show ?thesis by (auto split: if_splits)
  qed
qed

lemma collect_Inr:
  "collect rs = Some (Inr vs) \<longleftrightarrow> list_all2 (\<lambda>r v. r = Some (Inr v)) rs vs"
proof (induction rs arbitrary: vs rule: collect.induct)
  case 1
  then show ?case by auto
next
  case (2 rs)
  then show ?case by (auto simp: list_all2_Cons1)
next
  case (3 e rs)
  then show ?case by (auto simp: list_all2_Cons1)
next
  case (4 v rs)
  show ?case
    by (cases vs) (auto simp: 4 [symmetric] split: option.splits sum.splits)
qed

lemma collect_values:
  "\<forall>r\<in>set rs. \<exists>v. r = Some (Inr v) \<Longrightarrow> \<exists>vs. collect rs = Some (Inr vs)"
  by (induction rs) auto

text \<open>A name, that is a string without the product sign, resolves as soon as its lookup returns.\<close>

lemma resolve_size_name:
  "CHR ''*'' \<notin> set s \<Longrightarrow> recursive_dict_lookup (StrV s) (get_consts_and_enums g) = Some t \<Longrightarrow>
   resolve_size g (TokStr s) = Some (Inr (py_or (try_coerce_to_num t) (StrV s)))"
  by simp

text \<open>A resolved size is an integer, a string or a tuple, never a boolean.\<close>

lemma resolve_size_not_bool:
  assumes r: "resolve_size g t = Some (Inr v)"
  shows "v \<noteq> BoolV b"
proof (cases t)
  case (TokInt n)
  with r show ?thesis by auto
next
  case (TokStr s)
  show ?thesis
  proof (cases "CHR ''*'' \<in> set s")
    case True
    with r TokStr show ?thesis
      by (auto split: option.splits sum.splits if_splits)
  next
    case False
    with r TokStr obtain t' where
      v: "v = py_or (try_coerce_to_num t') (StrV s)"
      by (auto split: option.splits)
    show ?thesis
      unfolding v py_or_def try_coerce_to_num_def
      by (cases t') (auto split: option.splits)
  qed
qed

text \<open>
  Claim C3. A product-form size token with a factor that does not resolve to an integer
  does not fail: \<^verbatim>\<open>resolve_size\<close> returns the tuple of the resolved factors, in the order
  of the factors. The lookup of every factor is assumed to return (the lookup is the
  only call that may not). With \<^verbatim>\<open>A = 2\<close> known and \<^verbatim>\<open>B\<close> unknown, \<^verbatim>\<open>"A*B"\<close> resolves to
  \<^verbatim>\<open>(2, "B")\<close>, which the witness derives.
\<close>

theorem resolve_size_mixed_product:
  assumes star: "CHR ''*'' \<in> set s"
    and returns: "\<forall>p\<in>set (str_split CHR ''*'' s).
        \<exists>t. recursive_dict_lookup (StrV p) (get_consts_and_enums g) = Some t"
    and mixed: "\<exists>p\<in>set (str_split CHR ''*'' s).
        \<exists>v. resolve_size g (TokStr p) = Some (Inr v) \<and> \<not> isinstance_int v"
  shows "\<exists>sizes. resolve_size g (TokStr s) = Some (Inr (TupleV sizes)) \<and>
           list_all2 (\<lambda>p v. resolve_size g (TokStr p) = Some (Inr v)) (str_split CHR ''*'' s) sizes"
proof -
  let ?parts = "str_split CHR ''*'' s"
  let ?rs = "map (\<lambda>part. resolve_size g (TokStr part)) ?parts"
  have "\<forall>r\<in>set ?rs. \<exists>v. r = Some (Inr v)"
  proof
    fix r assume "r \<in> set ?rs"
    then obtain p where p: "p \<in> set ?parts" and r: "r = resolve_size g (TokStr p)" by auto
    from p have "CHR ''*'' \<notin> set p" by (rule str_split_no_sep)
    moreover from returns p obtain t where
      "recursive_dict_lookup (StrV p) (get_consts_and_enums g) = Some t" by blast
    ultimately show "\<exists>v. r = Some (Inr v)" using r by (simp add: resolve_size_name)
  qed
  then obtain sizes where c: "collect ?rs = Some (Inr sizes)"
    using collect_values by blast
  then have rel: "list_all2 (\<lambda>p v. resolve_size g (TokStr p) = Some (Inr v)) ?parts sizes"
    by (simp add: collect_Inr list_all2_map1)
  from mixed obtain p v where p: "p \<in> set ?parts"
    and v: "resolve_size g (TokStr p) = Some (Inr v)" and n: "\<not> isinstance_int v" by blast
  from p rel v have "v \<in> set sizes"
    by (auto simp: list_all2_conv_all_nth in_set_conv_nth)
  with n have "\<not> list_all isinstance_int sizes" by (auto simp: list_all_iff)
  with star c have "resolve_size g (TokStr s) = Some (Inr (TupleV sizes))" by simp
  with rel show ?thesis by blast
qed

theorem resolve_size_mixed_product_witness:
  "CHR ''*'' \<in> set ''A*B'' \<and>
   recursive_dict_lookup (StrV ''A'') (get_consts_and_enums session_A) = Some (IntV 2) \<and>
   recursive_dict_lookup (StrV ''B'') (get_consts_and_enums session_A) = Some (StrV ''B'') \<and>
   resolve_size session_A (TokStr ''B'') = Some (Inr (StrV ''B'')) \<and>
   \<not> isinstance_int (StrV ''B'') \<and>
   resolve_size session_A (TokStr ''A*B'') = Some (Inr (TupleV [IntV 2, StrV ''B'']))"
proof -
  have star: "CHR ''*'' \<in> set ''A*B''" by simp
  have parts: "str_split CHR ''*'' ''A*B'' = [''A'', ''B'']" by simp
  have a: "recursive_dict_lookup (StrV ''A'') (get_consts_and_enums session_A) = Some (IntV 2)"
    by (simp add: view_A rdl_step rdl_absent)
  have b: "recursive_dict_lookup (StrV ''B'') (get_consts_and_enums session_A) = Some (StrV ''B'')"
    by (simp add: view_A rdl_absent)
  have ra: "resolve_size session_A (TokStr ''A'') = Some (Inr (IntV 2))"
    by (simp add: a try_coerce_to_num_def py_or_def)
  have rb: "resolve_size session_A (TokStr ''B'') = Some (Inr (StrV ''B''))"
    by (simp add: b try_coerce_to_num_def py_or_def int_of_string_eval)
  have returns: "\<forall>p\<in>set (str_split CHR ''*'' ''A*B'').
      \<exists>t. recursive_dict_lookup (StrV p) (get_consts_and_enums session_A) = Some t"
    using a b by (simp add: parts)
  have mixed: "\<exists>p\<in>set (str_split CHR ''*'' ''A*B'').
      \<exists>v. resolve_size session_A (TokStr p) = Some (Inr v) \<and> \<not> isinstance_int v"
    using rb by (simp add: parts)
  from resolve_size_mixed_product [OF star returns mixed] obtain sizes where
    r: "resolve_size session_A (TokStr ''A*B'') = Some (Inr (TupleV sizes))" and
    rel: "list_all2 (\<lambda>p v. resolve_size session_A (TokStr p) = Some (Inr v))
            (str_split CHR ''*'' ''A*B'') sizes"
    by blast
  from rel have "sizes = [IntV 2, StrV ''B'']"
    unfolding parts by (auto simp: list_all2_Cons1 ra rb simp del: resolve_size.simps)
  with r star a b rb show ?thesis by simp
qed

subsection \<open>Shape tuples\<close>

text \<open>
  Claim C8. When the dimensions of a specifier resolve to the sizes \<open>shape\<close>, then
  \<^verbatim>\<open>get_shape_tuple\<close> with \<^verbatim>\<open>squeeze\<close> returns \<open>shape\<close> without the entries that are the
  integer 1, the others in order, and without \<^verbatim>\<open>squeeze\<close> it returns \<open>shape\<close> whole.
  The witness squeezes \<^verbatim>\<open>(1, 4, 1)\<close> to \<^verbatim>\<open>(4,)\<close>.
\<close>

theorem get_shape_tuple_squeeze:
  assumes "list_all2 (\<lambda>t v. resolve_size g t = Some (Inr v)) (dims_list old_size) shape"
  shows "get_shape_tuple g old_size squeeze =
           Some (Inr (if squeeze then filter (\<lambda>d. d \<noteq> IntV 1) shape else shape))"
proof -
  have c: "collect (map (resolve_size g) (dims_list old_size)) = Some (Inr shape)"
    using assms by (simp add: collect_Inr list_all2_map1)
  have nb: "\<forall>d\<in>set shape. py_eq_int d 1 \<longleftrightarrow> d = IntV 1"
  proof
    fix d assume "d \<in> set shape"
    with assms obtain t where "resolve_size g t = Some (Inr d)"
      by (auto simp: list_all2_conv_all_nth in_set_conv_nth)
    then have "\<And>b. d \<noteq> BoolV b" by (rule resolve_size_not_bool)
    then show "py_eq_int d 1 \<longleftrightarrow> d = IntV 1" by (cases d) auto
  qed
  then have f: "filter (\<lambda>d. \<not> py_eq_int d 1) shape = filter (\<lambda>d. d \<noteq> IntV 1) shape"
    by (auto intro: filter_cong)
  show ?thesis
  proof (cases old_size)
    case (ParseResults ds)
    with c f show ?thesis by (simp add: get_shape_tuple_def)
  next
    case (Single d)
    with c f show ?thesis by (simp add: get_shape_tuple_def del: collect.simps)
  qed
qed

theorem get_shape_tuple_squeeze_witness:
  "list_all2 (\<lambda>t v. resolve_size session_empty t = Some (Inr v))
     (dims_list (ParseResults [TokStr ''1'', TokStr ''4'', TokStr ''1''])) [IntV 1, IntV 4, IntV 1] \<and>
   get_shape_tuple session_empty (ParseResults [TokStr ''1'', TokStr ''4'', TokStr ''1'']) True
     = Some (Inr [IntV 4]) \<and>
   get_shape_tuple session_empty (ParseResults [TokStr ''1'', TokStr ''4'', TokStr ''1'']) False
     = Some (Inr [IntV 1, IntV 4, IntV 1])"
proof -
  have v: "get_consts_and_enums session_empty = []"
    by (simp add: session_empty_def get_consts_and_enums_def init_def init_table_def)
  have h: "list_all2 (\<lambda>t v. resolve_size session_empty t = Some (Inr v))
     (dims_list (ParseResults [TokStr ''1'', TokStr ''4'', TokStr ''1''])) [IntV 1, IntV 4, IntV 1]"
    by (simp add: v rdl_absent try_coerce_to_num_def py_or_def int_of_string_eval)
  from get_shape_tuple_squeeze [OF h, of True] get_shape_tuple_squeeze [OF h, of False] h
  show ?thesis by simp
qed

subsection \<open>Conditional blocks\<close>




subsection \<open>Type names\<close>

text \<open>
  Claim C6. \<^verbatim>\<open>resolve_typename\<close> chases the name through the typedefs and then looks the
  final name up in the native-type table, keeping it when the table has no entry; the
  warning is logged exactly when the result equals the name asked for, and the result
  is returned in either case. This holds for every name whose typedef lookup returns:
  for a chain of two typedefs that ends in a native type, for a name that is no typedef
  but a native type, and for a name that is neither. With typedefs \<^verbatim>\<open>A -> B\<close> and
  \<^verbatim>\<open>B -> int\<close> and the native-type entry \<^verbatim>\<open>int -> i32\<close>, \<^verbatim>\<open>resolve_typename("A")\<close> returns
  \<^verbatim>\<open>"i32"\<close> and logs nothing. The call fails to return only if the lookup does.
\<close>

theorem resolve_typename_chain_and_unresolved:
  "resolve_typename ctypes_example session_typedefs ''A'' = Some (StrV ''i32'', False) \<and>
   (\<forall>C g old t. recursive_dict_lookup (StrV old) (typedefs_dict g) = Some t \<longrightarrow>
      resolve_typename C g old =
        Some (case dict_get C t of None \<Rightarrow> t | Some v \<Rightarrow> v,
              (case dict_get C t of None \<Rightarrow> t | Some v \<Rightarrow> v) = StrV old)) \<and>
   (\<forall>C g a b c n. map_of (typedefs_dict g) a = Some (StrV b) \<longrightarrow>
      map_of (typedefs_dict g) b = Some (StrV c) \<longrightarrow> map_of (typedefs_dict g) c = None \<longrightarrow>
      map_of C c = Some n \<longrightarrow>
      resolve_typename C g a = Some (n, n = StrV a)) \<and>
   (\<forall>C g old n. map_of (typedefs_dict g) old = None \<longrightarrow> map_of C old = Some n \<longrightarrow>
      resolve_typename C g old = Some (n, n = StrV old)) \<and>
   (\<forall>C g old. map_of (typedefs_dict g) old = None \<longrightarrow> map_of C old = None \<longrightarrow>
      resolve_typename C g old = Some (StrV old, True)) \<and>
   (\<forall>C g old t. recursive_dict_lookup (StrV old) (typedefs_dict g) = Some t \<longrightarrow>
      (case dict_get C t of None \<Rightarrow> t | Some v \<Rightarrow> v) = StrV old \<longrightarrow>
      resolve_typename C g old = Some (StrV old, True)) \<and>
   (\<forall>C g old new warned. resolve_typename C g old = Some (new, warned) \<longrightarrow>
      (warned \<longleftrightarrow> new = StrV old)) \<and>
   (\<forall>C g old. resolve_typename C g old = None \<longleftrightarrow>
      recursive_dict_lookup (StrV old) (typedefs_dict g) = None)"
proof (intro conjI allI impI)
  show "resolve_typename ctypes_example session_typedefs ''A'' = Some (StrV ''i32'', False)"
    by (simp add: resolve_typename_def session_typedefs_def ctypes_example_def init_def
        init_table_def rdl_step rdl_absent)
next
  fix C :: "pyval dict" and g :: binding_generator and old t
  assume "recursive_dict_lookup (StrV old) (typedefs_dict g) = Some t"
  then show "resolve_typename C g old =
        Some (case dict_get C t of None \<Rightarrow> t | Some v \<Rightarrow> v,
              (case dict_get C t of None \<Rightarrow> t | Some v \<Rightarrow> v) = StrV old)"
    by (simp add: resolve_typename_def Let_def)
next
  fix C :: "pyval dict" and g :: binding_generator and a b c n
  assume a: "map_of (typedefs_dict g) a = Some (StrV b)"
    and b: "map_of (typedefs_dict g) b = Some (StrV c)"
    and c: "map_of (typedefs_dict g) c = None"
    and n: "map_of C c = Some n"
  have "recursive_dict_lookup (StrV a) (typedefs_dict g) = recursive_dict_lookup (StrV b) (typedefs_dict g)"
    using a by (simp add: rdl_step)
  also have "\<dots> = recursive_dict_lookup (StrV c) (typedefs_dict g)"
    using b by (simp add: rdl_step)
  also have "\<dots> = Some (StrV c)"
    using c by (simp add: rdl_absent)
  finally show "resolve_typename C g a = Some (n, n = StrV a)"
    using n by (simp add: resolve_typename_def)
next
  fix C :: "pyval dict" and g :: binding_generator and old n
  assume "map_of (typedefs_dict g) old = None" and "map_of C old = Some n"
  then show "resolve_typename C g old = Some (n, n = StrV old)"
    by (simp add: resolve_typename_def rdl_absent)
next
  fix C :: "pyval dict" and g :: binding_generator and old
  assume "map_of (typedefs_dict g) old = None" and "map_of C old = None"
  then show "resolve_typename C g old = Some (StrV old, True)"
    by (simp add: resolve_typename_def rdl_absent)
next
  fix C :: "pyval dict" and g :: binding_generator and old t
  assume "recursive_dict_lookup (StrV old) (typedefs_dict g) = Some t"
    and "(case dict_get C t of None \<Rightarrow> t | Some v \<Rightarrow> v) = StrV old"
  then show "resolve_typename C g old = Some (StrV old, True)"
    by (simp add: resolve_typename_def)
next
  fix C :: "pyval dict" and g :: binding_generator and old new warned
  assume "resolve_typename C g old = Some (new, warned)"
  then show "warned \<longleftrightarrow> new = StrV old"
    by (auto simp: resolve_typename_def Let_def split: option.splits)
next
  fix C :: "pyval dict" and g :: binding_generator and old
  show "resolve_typename C g old = None \<longleftrightarrow>
      recursive_dict_lookup (StrV old) (typedefs_dict g) = None"
    by (simp add: resolve_typename_def Let_def split: option.splits)
qed

theorem resolve_typename_chain_and_unresolved_witness:
  "recursive_dict_lookup (StrV ''mjtNum'') (typedefs_dict session_typedefs) = Some (StrV ''mjtNum'') \<and>
   dict_get ctypes_example (StrV ''mjtNum'') = None \<and>
   resolve_typename ctypes_example session_typedefs ''mjtNum'' = Some (StrV ''mjtNum'', True) \<and>
   map_of (typedefs_dict session_typedefs) ''A'' = Some (StrV ''B'') \<and>
   map_of (typedefs_dict session_typedefs) ''B'' = Some (StrV ''int'') \<and>
   map_of (typedefs_dict session_typedefs) ''int'' = None \<and>
   map_of ctypes_example ''int'' = Some (StrV ''i32'') \<and>
   resolve_typename ctypes_example session_typedefs ''A'' = Some (StrV ''i32'', False) \<and>
   resolve_typename ctypes_example session_typedefs ''int'' = Some (StrV ''i32'', False)"
proof -
  have td: "typedefs_dict session_typedefs = [(''A'', StrV ''B''), (''B'', StrV ''int'')]"
    by (simp add: session_typedefs_def init_def init_table_def)
  have l: "recursive_dict_lookup (StrV ''mjtNum'') (typedefs_dict session_typedefs) = Some (StrV ''mjtNum'')"
    by (simp add: td rdl_absent)
  have d: "dict_get ctypes_example (StrV ''mjtNum'') = None"
    by (simp add: ctypes_example_def)
  then have e: "(case dict_get ctypes_example (StrV ''mjtNum'') of None \<Rightarrow> StrV ''mjtNum'' | Some v \<Rightarrow> v)
      = StrV ''mjtNum''" by simp
  have a: "map_of (typedefs_dict session_typedefs) ''A'' = Some (StrV ''B'')"
    and b: "map_of (typedefs_dict session_typedefs) ''B'' = Some (StrV ''int'')"
    and c: "map_of (typedefs_dict session_typedefs) ''int'' = None"
    by (simp_all add: td)
  have n: "map_of ctypes_example ''int'' = Some (StrV ''i32'')"
    by (simp add: ctypes_example_def)
  note t = resolve_typename_chain_and_unresolved
  note unresolved = t [THEN conjunct2, THEN conjunct2, THEN conjunct2, THEN conjunct2,
      THEN conjunct2, THEN conjunct1, rule_format]
  note chain = t [THEN conjunct2, THEN conjunct2, THEN conjunct1, rule_format]
  note native = t [THEN conjunct2, THEN conjunct2, THEN conjunct2, THEN conjunct1, rule_format]
  from unresolved [OF l e]
  have 1: "resolve_typename ctypes_example session_typedefs ''mjtNum'' = Some (StrV ''mjtNum'', True)" .
  from chain [OF a b c n]
  have 2: "resolve_typename ctypes_example session_typedefs ''A'' = Some (StrV ''i32'', False)"
    by simp
  from native [OF c n]
  have 3: "resolve_typename ctypes_example session_typedefs ''int'' = Some (StrV ''i32'', False)"
    by simp
  from l d 1 a b c n 2 3 show ?thesis by blast
qed

subsection \<open>The combined view of constants and enums\<close>

lemma map_of_dict_update: "map_of (dict_update d other) = map_of d ++ map_of (rev other)"
  unfolding dict_update_def
proof (induction other arbitrary: d)
  case Nil
  then show ?case by simp
next
  case (Cons kv other)
  obtain k v where kv: "kv = (k, v)" by (cases kv)
  have "map_of (AList.update k v d) ++ map_of (rev other) =
        map_of d ++ (map_of [(k, v)] ++ map_of (rev other))"
    by (simp add: AList.update_conv' map_add_upd_left fun_eq_iff map_add_def split: option.splits)
  with Cons kv show ?case by simp
qed

lemma map_of_overlay_None:
  "\<not> has_key enum n \<Longrightarrow> map_of (rev (map (\<lambda>(k, n). (k, IntV n)) enum)) n = None"
  by (auto simp: has_key_def map_of_eq_None_iff image_iff)

lemma map_of_overlay_Some:
  assumes d: "distinct (map fst enum)" and m: "map_of enum n = Some v"
  shows "map_of (rev (map (\<lambda>(k, n). (k, IntV n)) enum)) n = Some (IntV v)"
proof -
  let ?e = "map (\<lambda>(k, n). (k, IntV n)) enum"
  have fst: "map fst (rev ?e) = rev (map fst enum)"
    by (simp add: rev_map comp_def case_prod_unfold)
  from m have "(n, v) \<in> set enum" by (rule map_of_SomeD)
  then have "(n, IntV v) \<in> set (rev ?e)" by force
  moreover from d fst have "distinct (map fst (rev ?e))" by simp
  ultimately show ?thesis by (rule map_of_is_SomeI [rotated])
qed

lemma view_fold_absent:
  "\<forall>e\<in>set es. \<not> has_key e n \<Longrightarrow>
   map_of (fold (\<lambda>enum acc. dict_update acc (map (\<lambda>(k, n). (k, IntV n)) enum)) es c) n = map_of c n"
  by (induction es arbitrary: c) (simp_all add: map_of_dict_update map_add_def map_of_overlay_None)

text \<open>A name that no enum declares keeps the value of the constants table in the view.\<close>

lemma view_consts_only:
  "\<forall>e\<in>set (enums_dict g). \<not> has_key (snd e) n \<Longrightarrow>
   map_of (get_consts_and_enums g) n = map_of (consts_dict g) n"
  unfolding get_consts_and_enums_def by (rule view_fold_absent) simp

text \<open>
  Claim C7. In the combined view an enum member wins over a constant of the same name:
  the view maps a name to the value it has in the last enum of the table that
  declares it, whatever the constants table holds for it. Building the view changes
  no table: the function returns the view only and works on a copy, and a conditional
  block with empty branches, which builds the view, returns the session it was given.
\<close>

theorem get_consts_and_enums_enum_wins:
  assumes es: "enums_dict g = before @ (ename, enum) # after"
    and d: "distinct (map fst enum)"
    and m: "map_of enum n = Some v"
    and last: "\<forall>e\<in>set after. \<not> has_key (snd e) n"
  shows "map_of (get_consts_and_enums g) n = Some (IntV v) \<and>
         (p \<noteq> [] \<longrightarrow> recurse_token g (Token p [] [] x ty w) = (g, None))"
proof -
  let ?f = "\<lambda>enum acc. dict_update acc (map (\<lambda>(k, n). (k, IntV n)) enum)"
  have "get_consts_and_enums g =
      fold ?f (map snd after) (dict_update (fold ?f (map snd before) (consts_dict g))
        (map (\<lambda>(k, n). (k, IntV n)) enum))"
    by (simp add: get_consts_and_enums_def es)
  moreover from last have "\<forall>e\<in>set (map snd after). \<not> has_key e n" by simp
  ultimately have "map_of (get_consts_and_enums g) n =
      map_of (dict_update (fold ?f (map snd before) (consts_dict g))
        (map (\<lambda>(k, n). (k, IntV n)) enum)) n"
    by (simp only: view_fold_absent)
  also have "\<dots> = Some (IntV v)"
    by (simp add: map_of_dict_update map_add_def map_of_overlay_Some [OF d m])
  finally show ?thesis by simp
qed

theorem get_consts_and_enums_enum_wins_witness:
  "enums_dict session_N = [] @ (''E'', [(''N'', 7)]) # [] \<and>
   distinct (map fst [(''N'', 7 :: int)]) \<and>
   map_of [(''N'', 7 :: int)] ''N'' = Some 7 \<and>
   map_of (consts_dict session_N) ''N'' = Some (IntV 5) \<and>
   map_of (get_consts_and_enums session_N) ''N'' = Some (IntV 7) \<and>
   recurse_token session_N (Token ''N'' [] [] [] [] []) = (session_N, None)"
proof -
  have es: "enums_dict session_N = [] @ (''E'', [(''N'', 7)]) # []"
    by (simp add: session_N_def init_def init_table_def)
  have d: "distinct (map fst [(''N'', 7 :: int)])" by simp
  have m: "map_of [(''N'', 7 :: int)] ''N'' = Some 7" by simp
  have last: "\<forall>e\<in>set ([] :: (int dict) dict). \<not> has_key (snd e) ''N''" by simp
  have c: "map_of (consts_dict session_N) ''N'' = Some (IntV 5)"
    by (simp add: session_N_def init_def init_table_def)
  have p: "''N'' \<noteq> []" by simp
  from get_consts_and_enums_enum_wins [OF es d m last, of "''N''" "[]" "[]" "[]"] p es d m c
  show ?thesis by blast
qed

subsection \<open>Duplicate keys\<close>

text \<open>
  Claim C4. Inserting a key that a table already holds raises the duplicate-key error
  and leaves the session, and so the entry of that key, as it was. This is stated for
  the insertions that the generator makes into its tables: an enum block into the enums,
  a valueless declaration into the constants, a typedef into the typedefs and an
  x-macro member into the hints; the index is only ever reached through
  \<^verbatim>\<open>setdefault\<close>, so for it the statement is the one of the insertion of its table.
\<close>

theorem duplicate_key_is_rejected:
  "(has_key (enums_dict g) (enum_name e) \<longrightarrow> enum_loop [] 0 (enum_members e) = Inr ms \<longrightarrow>
      parse_enum g e = (g, Some (DuplicateKeyError (enum_name e)))) \<and>
   (has_key (consts_dict g) n \<longrightarrow>
      recurse_token g (Token [] tt ff n [] []) = (g, Some (DuplicateKeyError n))) \<and>
   (has_key (typedefs_dict g) tn \<longrightarrow> ty \<noteq> [] \<longrightarrow>
      recurse_token g (Token [] tt ff tn ty v) = (g, Some (DuplicateKeyError tn))) \<and>
   (has_key (hints_dict g) (field_name m) \<longrightarrow>
      get_shape_tuple g (field_dims m) True = Some (Inr shape) \<longrightarrow>
      parse_hint_member ip sn xname g m = Some (g, Some (DuplicateKeyError (field_name m)))) \<and>
   (has_key (index_dict g) k \<longrightarrow>
      uod_setitem (index_dict g) k inner = (index_dict g, Some (DuplicateKeyError k)))"
  by (simp add: parse_enum_def parse_hint_member_def uod_setitem_def)

theorem duplicate_key_is_rejected_witness:
  "has_key (enums_dict session_full) ''E'' \<and>
   parse_enum session_full \<lparr>enum_name = ''E'', enum_members = [mk_member ''Y'' [] [] ''5'']\<rparr>
     = (session_full, Some (DuplicateKeyError ''E'')) \<and>
   map_of (enums_dict session_full) ''E'' = Some [(''X'', 1)] \<and>
   has_key (consts_dict session_full) ''A'' \<and>
   recurse_token session_full (Token [] [] [] ''A'' [] []) = (session_full, Some (DuplicateKeyError ''A'')) \<and>
   map_of (consts_dict session_full) ''A'' = Some (IntV 2) \<and>
   has_key (typedefs_dict session_full) ''T'' \<and>
   recurse_token session_full (Token [] [] [] ''T'' ''float'' []) = (session_full, Some (DuplicateKeyError ''T'')) \<and>
   map_of (typedefs_dict session_full) ''T'' = Some (StrV ''int'') \<and>
   has_key (hints_dict session_full) ''qpos'' \<and>
   parse_hint_member (\<lambda>n. True) (\<lambda>n. ''mjdata'') ''MJDATA_POINTERS'' session_full
       \<lparr>field_name = ''qpos'', field_dims = Single (TokInt 3)\<rparr>
     = Some (session_full, Some (DuplicateKeyError ''qpos'')) \<and>
   map_of (hints_dict session_full) ''qpos'' = Some (TupleV [IntV 7]) \<and>
   has_key (index_dict session_full) ''mjdata'' \<and>
   uod_setitem (index_dict session_full) ''mjdata'' []
     = (index_dict session_full, Some (DuplicateKeyError ''mjdata'')) \<and>
   map_of (index_dict session_full) ''mjdata'' = Some [(''qpos'', TupleV [IntV 7])]"
proof -
  let ?e = "\<lparr>enum_name = ''E'', enum_members = [mk_member ''Y'' [] [] ''5'']\<rparr>"
  let ?m = "\<lparr>field_name = ''qpos'', field_dims = Single (TokInt 3)\<rparr>"
  have tables: "enums_dict session_full = [(''E'', [(''X'', 1)])]"
    "consts_dict session_full = [(''A'', IntV 2)]"
    "typedefs_dict session_full = [(''T'', StrV ''int'')]"
    "hints_dict session_full = [(''qpos'', TupleV [IntV 7])]"
    "index_dict session_full = [(''mjdata'', [(''qpos'', TupleV [IntV 7])])]"
    by (simp_all add: session_full_def init_def init_table_def)
  have loop: "enum_loop [] 0 (enum_members ?e) = Inr [(''Y'', 5)]"
    by (simp add: mk_member_def member_value_of_def py_int_def int_of_string_eval
        uod_setitem_def has_key_def)
  have shape: "get_shape_tuple session_full (field_dims ?m) True = Some (Inr [IntV 3])"
    by (simp add: get_shape_tuple_def)
  have keys: "has_key (enums_dict session_full) (enum_name ?e)"
    "has_key (consts_dict session_full) ''A''"
    "has_key (typedefs_dict session_full) ''T''"
    "has_key (hints_dict session_full) (field_name ?m)"
    "has_key (index_dict session_full) ''mjdata''"
    by (simp_all add: tables has_key_def)
  have ty: "''float'' \<noteq> []" by simp
  note c = duplicate_key_is_rejected
      [where g = session_full and e = ?e and ms = "[(''Y'', 5)]" and n = "''A''"
      and tt = "[]" and ff = "[]" and tn = "''T''" and ty = "''float''" and v = "[]" and m = ?m
      and shape = "[IntV 3]" and ip = "\<lambda>n. True" and sn = "\<lambda>n. ''mjdata''"
      and xname = "''MJDATA_POINTERS''" and k = "''mjdata''" and inner = "[]"]
  from c keys loop shape ty have
    "parse_enum session_full ?e = (session_full, Some (DuplicateKeyError (enum_name ?e)))"
    "recurse_token session_full (Token [] [] [] ''A'' [] []) = (session_full, Some (DuplicateKeyError ''A''))"
    "recurse_token session_full (Token [] [] [] ''T'' ''float'' []) = (session_full, Some (DuplicateKeyError ''T''))"
    "parse_hint_member (\<lambda>n. True) (\<lambda>n. ''mjdata'') ''MJDATA_POINTERS'' session_full ?m
       = Some (session_full, Some (DuplicateKeyError (field_name ?m)))"
    "uod_setitem (index_dict session_full) ''mjdata'' []
       = (index_dict session_full, Some (DuplicateKeyError ''mjdata''))"
    by blast+
  with keys show ?thesis by (simp add: tables)
qed

subsection \<open>The index of struct fields\<close>








end
